theory Spec2Isabelle
  imports Main "HOL-Library.Word" "HOL-Library.Sublist"
begin

section \<open>The memcheck pass: data model\<close>

text \<open>
  The pass of \<^verbatim>\<open>src/memcheck.cpp\<close> walks an LLVM module, keeps the functions whose debug
  source path lies under \<^verbatim>\<open>$SCOP_ROOT\<close>, counts their loads, stores and bytes, and writes
  the counts to the diagnostic stream, a CSV file and a JSON file.

  The counters are \<^verbatim>\<open>size_t\<close> fields: 64-bit unsigned words here (an LP64 target), whose
  \<open>+\<close> wraps as the source's does.
\<close>

type_synonym size_t = "64 word"

text \<open>
  An instruction, as far as the pass tells instructions apart (its \<^verbatim>\<open>dyn_cast\<close>s): a load
  with the type of the loaded value, a store with the type of the stored value and the type
  of the address operand, a call with its callee when \<^verbatim>\<open>getCalledFunction\<close> resolves it, and
  anything else. Types are a parameter \<open>'ty\<close>; the pass only hands them to the data layout.
\<close>

datatype 'ty instr =
    LoadInst 'ty
  | StoreInst 'ty 'ty
  | CallInst "nat option"
  | OtherInst

text \<open>The directory and file name of a \<^verbatim>\<open>DIFile\<close>.\<close>

record difile =
  directory :: string
  filename :: string

text \<open>
  A function of the module. \<open>addr\<close> is its identity (the \<^verbatim>\<open>Function *\<close> that keys the
  analysis map), \<open>name\<close> its linkage name, \<open>blocks\<close> its basic blocks in order,
  \<open>subprogram\<close> the result of \<^verbatim>\<open>getSubprogram\<close> (\<open>None\<close>: no debug metadata;
  \<open>Some None\<close>: a subprogram whose \<^verbatim>\<open>getFile\<close> is null) and \<open>isDeclaration\<close> the result
  of \<^verbatim>\<open>isDeclaration\<close>.
\<close>

record 'ty Function =
  addr :: nat
  name :: string
  blocks :: "'ty instr list list"
  subprogram :: "difile option option"
  isDeclaration :: bool

record FunctionAnalysis =
  mangledName :: string
  demangledName :: string
  loads :: size_t
  stores :: size_t
  bytes :: size_t

type_synonym analysisMap = "nat \<rightharpoonup> FunctionAnalysis"

section \<open>analyzeFunction\<close>

text \<open>
  The body of the two nested loops of \<^verbatim>\<open>analyzeFunction\<close> for one instruction. \<open>dl\<close> is the
  module's data layout, \<^verbatim>\<open>getTypeAllocSize\<close>, whose result is a 64-bit unsigned value.
\<close>

fun accountInstr :: "('ty \<Rightarrow> size_t) \<Rightarrow> FunctionAnalysis \<Rightarrow> 'ty instr \<Rightarrow> FunctionAnalysis" where
  "accountInstr dl result (LoadInst ty) =
     result\<lparr>loads := loads result + 1, bytes := bytes result + dl ty\<rparr>"
| "accountInstr dl result (StoreInst valty ptrty) =
     result\<lparr>stores := stores result + 1, bytes := bytes result + dl valty\<rparr>"
| "accountInstr dl result (CallInst callee) = result"
| "accountInstr dl result OtherInst = result"

definition accountBlock :: "('ty \<Rightarrow> size_t) \<Rightarrow> FunctionAnalysis \<Rightarrow> 'ty instr list \<Rightarrow> FunctionAnalysis" where
  "accountBlock dl result BB = foldl (accountInstr dl) result BB"

definition accountBody :: "('ty \<Rightarrow> size_t) \<Rightarrow> FunctionAnalysis \<Rightarrow> 'ty instr list list \<Rightarrow> FunctionAnalysis" where
  "accountBody dl result BBs = foldl (accountBlock dl) result BBs"

text \<open>
  \<^verbatim>\<open>analyzeFunction(F, analysisMap)\<close>: the stored entry when the map has one for \<open>F\<close>,
  else a fresh record, named and counted, which is stored and returned. The map is passed by
  reference in the source, so the model returns it too. \<open>demangle\<close> is LLVM's
  \<^verbatim>\<open>llvm::demangle\<close>, a parameter.
\<close>

definition analyzeFunction ::
  "(string \<Rightarrow> string) \<Rightarrow> ('ty \<Rightarrow> size_t) \<Rightarrow> 'ty Function \<Rightarrow> analysisMap
     \<Rightarrow> FunctionAnalysis \<times> analysisMap" where
  "analyzeFunction demangle dl F analysisMap =
     (case analysisMap (addr F) of
        Some stored \<Rightarrow> (stored, analysisMap)
      | None \<Rightarrow>
          (let result = \<lparr>mangledName = name F, demangledName = demangle (name F),
                          loads = 0, stores = 0, bytes = 0\<rparr>;
               result = accountBody dl result (blocks F)
           in (result, analysisMap(addr F \<mapsto> result))))"

section \<open>What the counts are\<close>

text \<open>The instruction stream of a body, the loads and stores in it, and the bytes one
  instruction touches.\<close>

definition instrs :: "'ty Function \<Rightarrow> 'ty instr list" where
  "instrs F = concat (blocks F)"

fun isLoad :: "'ty instr \<Rightarrow> bool" where
  "isLoad (LoadInst ty) = True"
| "isLoad I = False"

fun isStore :: "'ty instr \<Rightarrow> bool" where
  "isStore (StoreInst valty ptrty) = True"
| "isStore I = False"

fun accessBytes :: "('ty \<Rightarrow> size_t) \<Rightarrow> 'ty instr \<Rightarrow> size_t" where
  "accessBytes dl (LoadInst ty) = dl ty"
| "accessBytes dl (StoreInst valty ptrty) = dl valty"
| "accessBytes dl I = 0"

text \<open>The traversal of \<^verbatim>\<open>analyzeFunction\<close> on its own, without the map: the Instruction
  Accountant's result for a function.\<close>

definition accountant :: "(string \<Rightarrow> string) \<Rightarrow> ('ty \<Rightarrow> size_t) \<Rightarrow> 'ty Function \<Rightarrow> FunctionAnalysis" where
  "accountant demangle dl F =
     accountBody dl \<lparr>mangledName = name F, demangledName = demangle (name F),
                      loads = 0, stores = 0, bytes = 0\<rparr> (blocks F)"

section \<open>isUserDefinedFunction\<close>

text \<open>
  Modelled from the spec: \<^verbatim>\<open>llvm::sys::path::append\<close> belongs to LLVM's support library and
  is not under src/; the spec says the classifier "concatenates directory and filename into
  a normalized absolute path". This is the routine for the POSIX path style, whose only
  separator is the slash: after a path that ends in a separator the component loses its
  leading separators; otherwise a separator is put between the two unless the component
  starts with one or the path is empty.
\<close>

definition path_append :: "string \<Rightarrow> string \<Rightarrow> string" where
  "path_append path component =
     (if path \<noteq> [] \<and> last path = CHR ''/'' then path @ dropWhile (\<lambda>c. c = CHR ''/'') component
      else if (component \<noteq> [] \<and> hd component = CHR ''/'') \<or> path = [] then path @ component
      else path @ ''/'' @ component)"

definition missingRootMsg :: string where
  "missingRootMsg = ''Error: $SCOP_ROOT environment variable is not set.'' @ [CHR 0x0A]"

text \<open>
  \<^verbatim>\<open>isUserDefinedFunction(F)\<close>. \<open>projectRoot\<close> is the result of
  \<^verbatim>\<open>std::getenv("SCOP_ROOT")\<close>, \<open>None\<close> for the null pointer. The result is the
  decision and the text the call writes to \<^verbatim>\<open>errs()\<close>.
\<close>

definition isUserDefinedFunction :: "string option \<Rightarrow> 'ty Function \<Rightarrow> bool \<times> string" where
  "isUserDefinedFunction projectRoot F =
     (case projectRoot of
        None \<Rightarrow> (False, missingRootMsg)
      | Some root \<Rightarrow>
          (case subprogram F of
             Some (Some file) \<Rightarrow>
               (prefix root (path_append (directory file) (filename file)), [])
           | Some None \<Rightarrow> (False, [])
           | None \<Rightarrow> (False, [])))"

section \<open>escapeCSV\<close>

text \<open>
  \<^verbatim>\<open>std::string::find(ch, pos)\<close>: the index of the first occurrence of \<open>ch\<close> at or after
  \<open>pos\<close>, \<open>None\<close> for \<^verbatim>\<open>npos\<close>; and \<^verbatim>\<open>replace(pos, len, str)\<close> for a position inside
  the string.
\<close>

fun find_first :: "char \<Rightarrow> string \<Rightarrow> nat option" where
  "find_first ch [] = None"
| "find_first ch (c # cs) = (if c = ch then Some 0 else map_option Suc (find_first ch cs))"

definition find_char :: "string \<Rightarrow> char \<Rightarrow> nat \<Rightarrow> nat option" where
  "find_char s ch pos = map_option (\<lambda>i. pos + i) (find_first ch (drop pos s))"

definition replace_str :: "string \<Rightarrow> nat \<Rightarrow> nat \<Rightarrow> string \<Rightarrow> string" where
  "replace_str s pos len str = take pos s @ str @ drop (pos + len) s"

lemma find_first_less: "find_first ch s = Some i \<Longrightarrow> i < length s"
  by (induction s arbitrary: i) (auto split: if_splits)

lemma find_char_bounds: "find_char s ch pos = Some p \<Longrightarrow> pos \<le> p \<and> p < length s"
  by (auto simp: find_char_def dest!: find_first_less)

text \<open>The \<^verbatim>\<open>while\<close> loop of \<^verbatim>\<open>escapeCSV\<close>: every double quote found from \<open>pos\<close> on is
  replaced by two, and the search goes on behind them.\<close>

function escape_loop :: "string \<Rightarrow> nat \<Rightarrow> string" where
  "escape_loop escaped pos =
     (case find_char escaped (CHR 0x22) pos of
        None \<Rightarrow> escaped
      | Some p \<Rightarrow> escape_loop (replace_str escaped p 1 [CHR 0x22, CHR 0x22]) (p + 2))"
  by pat_completeness auto
termination
proof (relation "measure (\<lambda>(escaped, pos). length escaped - pos)")
  show "wf (measure (\<lambda>(escaped, pos). length escaped - pos))" by simp
next
  fix escaped :: string and pos p :: nat
  assume "find_char escaped (CHR 0x22) pos = Some p"
  then have "pos \<le> p" "p < length escaped" by (auto dest: find_char_bounds)
  then show "((replace_str escaped p 1 [CHR 0x22, CHR 0x22], p + 2), (escaped, pos))
      \<in> measure (\<lambda>(escaped, pos). length escaped - pos)"
    by (simp add: replace_str_def)
qed

declare escape_loop.simps [simp del]

definition escapeCSV :: "string \<Rightarrow> string" where
  "escapeCSV cell =
     (let escaped = cell in
      if find_char escaped (CHR '','') 0 \<noteq> None \<or> find_char escaped (CHR 0x22) 0 \<noteq> None
      then [CHR 0x22] @ escape_loop escaped 0 @ [CHR 0x22]
      else escaped)"

text \<open>A cell in wrapping quotes with every inner double quote doubled.\<close>

definition double_quotes :: "string \<Rightarrow> string" where
  "double_quotes s = concat (map (\<lambda>c. if c = CHR 0x22 then [CHR 0x22, CHR 0x22] else [c]) s)"

definition quoted_cell :: "string \<Rightarrow> string" where
  "quoted_cell s = [CHR 0x22] @ double_quotes s @ [CHR 0x22]"

section \<open>Output: the diagnostic block, the CSV row, the JSON record\<close>

text \<open>\<^verbatim>\<open>operator<<\<close> of a \<^verbatim>\<open>size_t\<close>: the unsigned value in decimal.\<close>

fun dec :: "nat \<Rightarrow> string" where
  "dec n = (if n < 10 then [''0123456789'' ! n] else dec (n div 10) @ [''0123456789'' ! (n mod 10)])"

declare dec.simps [simp del]

definition show_size :: "size_t \<Rightarrow> string" where
  "show_size w = dec (unat w)"

text \<open>
  The state the pass works on. Of the process: the function-local statics of
  \<^verbatim>\<open>writeToCSV\<close> (\<open>csvInitialized\<close> is \<^verbatim>\<open>isFileInitialized\<close>, \<open>csvFile\<close> the text
  written to the static stream since it was opened, or the file's old content while the
  stream has not been opened; the source never flushes or closes that stream, so the file
  itself holds this text when the process ends, not before), the JSON file's content
  (\<^verbatim>\<open>run\<close> closes that file), and what was written to \<^verbatim>\<open>errs()\<close>. Of the pass
  object: \<open>visitedFunctions\<close>.
  Of \<^verbatim>\<open>run\<close>: its locals \<open>isFirstFunction\<close> and \<open>analysisMap\<close>; the latter is declared
  inside the loop body, so it holds the map of the iteration that last declared it.
  Opening a file is taken to succeed.
\<close>

record state =
  csvInitialized :: bool
  csvFile :: string
  jsonFile :: string
  errs :: string
  visitedFunctions :: "nat set"
  isFirstFunction :: bool
  analysisMap :: analysisMap

text \<open>A process that has not run the pass yet; the files are empty or absent.\<close>

definition fresh_process :: state where
  "fresh_process = \<lparr>csvInitialized = False, csvFile = [], jsonFile = [], errs = [],
     visitedFunctions = {}, isFirstFunction = True, analysisMap = Map.empty\<rparr>"

definition dashes :: string where
  "dashes = ''-------------------------------------------'' @ [CHR 0x0A]"

text \<open>The text \<^verbatim>\<open>printFunctionAnalysis\<close> writes to \<^verbatim>\<open>errs()\<close>.\<close>

definition printFunctionAnalysis :: "FunctionAnalysis \<Rightarrow> string" where
  "printFunctionAnalysis analysis =
     dashes
     @ '' Function Name (Demangled): '' @ demangledName analysis @ [CHR 0x0A]
     @ '' Function Name (Mangled): '' @ mangledName analysis @ [CHR 0x0A] @ '';''
     @ dashes
     @ ''  '' @ [CHR 0x27] @ ''Loads'' @ [CHR 0x27] @ '': '' @ show_size (loads analysis) @ [CHR 0x0A]
     @ ''  '' @ [CHR 0x27] @ ''Stores'' @ [CHR 0x27] @ '': '' @ show_size (stores analysis) @ [CHR 0x0A]
     @ ''  '' @ [CHR 0x27] @ ''Bytes'' @ [CHR 0x27] @ '': '' @ show_size (bytes analysis) @ [CHR 0x0A]
     @ dashes
     @ [CHR 0x0A]"

definition csvHeader :: string where
  "csvHeader = [CHR 0x27] @ ''Function Name (Demangled)'' @ [CHR 0x27] @ '','' @ [CHR 0x27] @ ''Function Name (Mangled)'' @ [CHR 0x27] @ '','' @ [CHR 0x27] @ ''Loads'' @ [CHR 0x27] @ '','' @ [CHR 0x27] @ ''Stores'' @ [CHR 0x27] @ '','' @ [CHR 0x27] @ ''Bytes'' @ [CHR 0x27] @ '' '' @ [CHR 0x0A]"

text \<open>The row \<^verbatim>\<open>writeToCSV\<close> writes for one function.\<close>

definition csvRow :: "FunctionAnalysis \<Rightarrow> string" where
  "csvRow analysis =
     escapeCSV (demangledName analysis) @ '','' @ escapeCSV (mangledName analysis) @ '',''
     @ show_size (loads analysis) @ '','' @ show_size (stores analysis) @ '',''
     @ show_size (bytes analysis) @ [CHR 0x0A]"

text \<open>
  \<^verbatim>\<open>writeToCSV\<close>: the first call of the process opens the file, which empties it, and
  writes the header; every call writes the row.
\<close>

definition writeToCSV :: "FunctionAnalysis \<Rightarrow> state \<Rightarrow> state" where
  "writeToCSV analysis s =
     (let s = (if \<not> csvInitialized s then s\<lparr>csvFile := csvHeader, csvInitialized := True\<rparr> else s)
      in s\<lparr>csvFile := csvFile s @ csvRow analysis\<rparr>)"

definition jsonRecord :: "FunctionAnalysis \<Rightarrow> string" where
  "jsonRecord analysis =
     ''  {'' @ [CHR 0x0A]
     @ ''    '' @ [CHR 0x22] @ ''Function Name (Demangled)'' @ [CHR 0x22] @ '': '' @ [CHR 0x22] @ demangledName analysis @ [CHR 0x22] @ '','' @ [CHR 0x0A]
     @ ''    '' @ [CHR 0x22] @ ''Function Name (Mangled)'' @ [CHR 0x22] @ '': '' @ [CHR 0x22] @ mangledName analysis @ [CHR 0x22] @ '','' @ [CHR 0x0A]
     @ ''    '' @ [CHR 0x22] @ ''Loads'' @ [CHR 0x22] @ '': '' @ show_size (loads analysis) @ '','' @ [CHR 0x0A]
     @ ''    '' @ [CHR 0x22] @ ''Stores'' @ [CHR 0x22] @ '': '' @ show_size (stores analysis) @ '','' @ [CHR 0x0A]
     @ ''    '' @ [CHR 0x22] @ ''Bytes'' @ [CHR 0x22] @ '': '' @ show_size (bytes analysis) @ [CHR 0x0A]
     @ ''  }''"

text \<open>\<^verbatim>\<open>writeToJSON\<close>; the parameter \<^verbatim>\<open>functionName\<close> is not used by the source either.\<close>

definition writeToJSON :: "FunctionAnalysis \<Rightarrow> string \<Rightarrow> bool \<Rightarrow> state \<Rightarrow> state" where
  "writeToJSON analysis functionName isFirst s =
     (let s = (if \<not> isFirst then s\<lparr>jsonFile := jsonFile s @ '','' @ [CHR 0x0A]\<rparr> else s)
      in s\<lparr>jsonFile := jsonFile s @ jsonRecord analysis\<rparr>)"

section \<open>run\<close>

text \<open>
  The first loop nest of \<^verbatim>\<open>run\<close> tallies the resolved callees of the call instructions in
  the local \<^verbatim>\<open>callCounts\<close>, which nothing reads afterwards.
\<close>

fun countCall :: "(nat \<rightharpoonup> int) \<Rightarrow> 'ty instr \<Rightarrow> (nat \<rightharpoonup> int)" where
  "countCall callCounts (CallInst (Some calledFunction)) =
     callCounts(calledFunction \<mapsto> (case callCounts calledFunction of None \<Rightarrow> 1 | Some n \<Rightarrow> n + 1))"
| "countCall callCounts I = callCounts"

definition scanCalls :: "'ty Function list \<Rightarrow> (nat \<rightharpoonup> int)" where
  "scanCalls M = foldl (\<lambda>callCounts F. foldl (foldl countCall) callCounts (blocks F)) Map.empty M"

text \<open>
  The body of the second loop of \<^verbatim>\<open>run\<close> for one function. The classifier is called
  first, for every function (the left operand of \<^verbatim>\<open>&&\<close>), and what it writes goes to
  \<^verbatim>\<open>errs()\<close>.
\<close>

definition run_body ::
  "string option \<Rightarrow> (string \<Rightarrow> string) \<Rightarrow> ('ty \<Rightarrow> size_t) \<Rightarrow> state \<Rightarrow> 'ty Function \<Rightarrow> state" where
  "run_body projectRoot demangle dl s F =
     (let (user, diagnostic) = isUserDefinedFunction projectRoot F;
          s = s\<lparr>errs := errs s @ diagnostic\<rparr>
      in if user \<and> \<not> isDeclaration F then
           (let s = s\<lparr>visitedFunctions := {}\<rparr>;
                s = s\<lparr>analysisMap := Map.empty\<rparr>;
                (analysis, m) = analyzeFunction demangle dl F (analysisMap s);
                s = s\<lparr>analysisMap := m\<rparr>;
                s = s\<lparr>errs := errs s @ printFunctionAnalysis analysis\<rparr>;
                s = writeToCSV analysis s;
                s = writeToJSON analysis (name F) (isFirstFunction s) s
            in s\<lparr>isFirstFunction := False\<rparr>)
         else s)"

text \<open>
  \<^verbatim>\<open>run(M, MAM)\<close> on a module, given as its functions in order. The JSON file is opened
  anew, which empties it, and gets the opening bracket; after the loop it gets the closing
  bracket.
\<close>

definition run ::
  "string option \<Rightarrow> (string \<Rightarrow> string) \<Rightarrow> ('ty \<Rightarrow> size_t) \<Rightarrow> 'ty Function list \<Rightarrow> state \<Rightarrow> state" where
  "run projectRoot demangle dl M s =
     (let callCounts = scanCalls M;
          s = s\<lparr>jsonFile := ''['' @ [CHR 0x0A]\<rparr>;
          s = s\<lparr>isFirstFunction := True\<rparr>;
          s = foldl (run_body projectRoot demangle dl) s M
      in s\<lparr>jsonFile := jsonFile s @ [CHR 0x0A] @ '']''\<rparr>)"

section \<open>What a run analyses\<close>

text \<open>The functions that pass the filter of the second loop, in module order.\<close>

definition passes :: "string option \<Rightarrow> 'ty Function \<Rightarrow> bool" where
  "passes projectRoot F = (fst (isUserDefinedFunction projectRoot F) \<and> \<not> isDeclaration F)"

definition analysed :: "string option \<Rightarrow> 'ty Function list \<Rightarrow> 'ty Function list" where
  "analysed projectRoot M = filter (passes projectRoot) M"

text \<open>Records as \<^verbatim>\<open>writeToJSON\<close> strings them together: a comma and a newline before
  every record but the first.\<close>

fun json_items :: "bool \<Rightarrow> string list \<Rightarrow> string" where
  "json_items isFirst [] = []"
| "json_items isFirst (r # rs) =
     (if isFirst then [] else '','' @ [CHR 0x0A]) @ r @ json_items False rs"

section \<open>A reader for the structured artifact\<close>

text \<open>
  What the spec asks of the JSON file: a syntactically valid array of record objects, each
  with the five fields. The reader below follows those words, not the source: it accepts an
  array of flat objects whose values are strings or unsigned decimal numbers, with JSON's
  white space, string escapes and separators, and returns the records. Any other text,
  malformed or not of this shape, gives \<open>None\<close>.
\<close>

datatype jtoken =
    TLBracket | TRBracket | TLBrace | TRBrace | TComma | TColon
  | TString string
  | TNumber string

datatype lexmode =
    LTop
  | LString string
  | LEscape string
  | LHex string nat
  | LNumber string

definition is_digit :: "char \<Rightarrow> bool" where
  "is_digit c = (c \<in> set ''0123456789'')"

definition is_hex :: "char \<Rightarrow> bool" where
  "is_hex c = (c \<in> set ''0123456789abcdefABCDEF'')"

definition is_space :: "char \<Rightarrow> bool" where
  "is_space c = (c = CHR '' '' \<or> c = CHR 0x0A \<or> c = CHR 0x0D \<or> c = CHR 0x09)"

definition is_control :: "char \<Rightarrow> bool" where
  "is_control c = ((of_char c :: nat) < 32)"

definition top_step :: "char \<Rightarrow> (jtoken list \<times> lexmode) option" where
  "top_step c =
     (if is_space c then Some ([], LTop)
      else if c = CHR ''['' then Some ([TLBracket], LTop)
      else if c = CHR '']'' then Some ([TRBracket], LTop)
      else if c = CHR ''{'' then Some ([TLBrace], LTop)
      else if c = CHR ''}'' then Some ([TRBrace], LTop)
      else if c = CHR '','' then Some ([TComma], LTop)
      else if c = CHR '':'' then Some ([TColon], LTop)
      else if c = CHR 0x22 then Some ([], LString [])
      else if is_digit c then Some ([], LNumber [c])
      else None)"

fun lex_step :: "lexmode \<Rightarrow> char \<Rightarrow> (jtoken list \<times> lexmode) option" where
  "lex_step LTop c = top_step c"
| "lex_step (LString acc) c =
     (if c = CHR 0x22 then Some ([TString acc], LTop)
      else if c = CHR 0x5C then Some ([], LEscape acc)
      else if is_control c then None
      else Some ([], LString (acc @ [c])))"
| "lex_step (LEscape acc) c =
     (if c = CHR ''u'' then Some ([], LHex (acc @ [CHR 0x5C, c]) 4)
      else if c \<in> set ([CHR 0x22, CHR 0x5C] @ ''/bfnrt'') then Some ([], LString (acc @ [CHR 0x5C, c]))
      else None)"
| "lex_step (LHex acc n) c =
     (if is_hex c then Some ([], if n \<le> 1 then LString (acc @ [c]) else LHex (acc @ [c]) (n - 1))
      else None)"
| "lex_step (LNumber acc) c =
     (if is_digit c then Some ([], LNumber (acc @ [c]))
      else map_option (\<lambda>(ts, m). (TNumber acc # ts, m)) (top_step c))"

definition emit :: "jtoken list \<Rightarrow> jtoken list option \<Rightarrow> jtoken list option" where
  "emit ts rest = map_option (\<lambda>r. ts @ r) rest"

fun json_lex :: "lexmode \<Rightarrow> string \<Rightarrow> jtoken list option" where
  "json_lex LTop [] = Some []"
| "json_lex (LNumber acc) [] = Some [TNumber acc]"
| "json_lex m [] = None"
| "json_lex m (c # cs) =
     (case lex_step m c of
        None \<Rightarrow> None
      | Some (ts, m') \<Rightarrow> emit ts (json_lex m' cs))"

datatype pstate =
    PStart | PArrayOpen | PArrayComma | PObjectOpen | PObjectComma | PObjectClose
  | PKey string | PColon string | PValue | PDone

type_synonym jrecord = "(string \<times> jtoken) list"

text \<open>A number written by JSON's rules: no leading zero but for 0 itself.\<close>

definition number_ok :: "string \<Rightarrow> bool" where
  "number_ok v = (v \<noteq> [] \<and> (hd v \<noteq> CHR ''0'' \<or> length v = 1))"

fun parse_step :: "pstate \<times> jrecord \<times> jrecord list \<Rightarrow> jtoken \<Rightarrow> (pstate \<times> jrecord \<times> jrecord list) option" where
  "parse_step (PStart, ms, rs) TLBracket = Some (PArrayOpen, [], [])"
| "parse_step (PArrayOpen, ms, rs) TLBrace = Some (PObjectOpen, [], rs)"
| "parse_step (PArrayOpen, ms, rs) TRBracket = Some (PDone, [], rs)"
| "parse_step (PArrayComma, ms, rs) TLBrace = Some (PObjectOpen, [], rs)"
| "parse_step (PObjectOpen, ms, rs) (TString k) = Some (PKey k, ms, rs)"
| "parse_step (PObjectOpen, ms, rs) TRBrace = Some (PObjectClose, [], rs @ [ms])"
| "parse_step (PObjectComma, ms, rs) (TString k) = Some (PKey k, ms, rs)"
| "parse_step (PKey k, ms, rs) TColon = Some (PColon k, ms, rs)"
| "parse_step (PColon k, ms, rs) (TString v) = Some (PValue, ms @ [(k, TString v)], rs)"
| "parse_step (PColon k, ms, rs) (TNumber v) =
     (if number_ok v then Some (PValue, ms @ [(k, TNumber v)], rs) else None)"
| "parse_step (PValue, ms, rs) TComma = Some (PObjectComma, ms, rs)"
| "parse_step (PValue, ms, rs) TRBrace = Some (PObjectClose, [], rs @ [ms])"
| "parse_step (PObjectClose, ms, rs) TComma = Some (PArrayComma, [], rs)"
| "parse_step (PObjectClose, ms, rs) TRBracket = Some (PDone, [], rs)"
| "parse_step st t = None"

fun parse_tokens :: "pstate \<times> jrecord \<times> jrecord list \<Rightarrow> jtoken list \<Rightarrow> (pstate \<times> jrecord \<times> jrecord list) option" where
  "parse_tokens st [] = Some st"
| "parse_tokens st (t # ts) =
     (case parse_step st t of None \<Rightarrow> None | Some st' \<Rightarrow> parse_tokens st' ts)"

definition json_records :: "string \<Rightarrow> jrecord list option" where
  "json_records text =
     (case json_lex LTop text of
        None \<Rightarrow> None
      | Some tokens \<Rightarrow>
          (case parse_tokens (PStart, [], []) tokens of
             Some (PDone, ms, rs) \<Rightarrow> Some rs
           | _ \<Rightarrow> None))"

definition required_fields :: "string list" where
  "required_fields = [''Function Name (Demangled)'', ''Function Name (Mangled)'',
     ''Loads'', ''Stores'', ''Bytes'']"

definition well_formed_records :: "nat \<Rightarrow> string \<Rightarrow> bool" where
  "well_formed_records N text =
     (case json_records text of
        None \<Rightarrow> False
      | Some rs \<Rightarrow> length rs = N \<and> list_all (\<lambda>r. set required_fields \<subseteq> set (map fst r)) rs)"

text \<open>
  A name that can stand between double quotes in JSON as it is: no double quote, no
  backslash, no control character. And what the reader makes of a record written for such
  names: its tokens and its fields.
\<close>

definition json_safe :: "string \<Rightarrow> bool" where
  "json_safe s = list_all (\<lambda>c. c \<noteq> CHR 0x22 \<and> c \<noteq> CHR 0x5C \<and> \<not> is_control c) s"

definition record_tokens :: "FunctionAnalysis \<Rightarrow> jtoken list" where
  "record_tokens a =
     [TLBrace,
      TString ''Function Name (Demangled)'', TColon, TString (demangledName a), TComma,
      TString ''Function Name (Mangled)'', TColon, TString (mangledName a), TComma,
      TString ''Loads'', TColon, TNumber (show_size (loads a)), TComma,
      TString ''Stores'', TColon, TNumber (show_size (stores a)), TComma,
      TString ''Bytes'', TColon, TNumber (show_size (bytes a)),
      TRBrace]"

definition record_fields :: "FunctionAnalysis \<Rightarrow> jrecord" where
  "record_fields a =
     [(''Function Name (Demangled)'', TString (demangledName a)),
      (''Function Name (Mangled)'', TString (mangledName a)),
      (''Loads'', TNumber (show_size (loads a))),
      (''Stores'', TNumber (show_size (stores a))),
      (''Bytes'', TNumber (show_size (bytes a)))]"

fun items_tokens :: "bool \<Rightarrow> FunctionAnalysis list \<Rightarrow> jtoken list" where
  "items_tokens isFirst [] = []"
| "items_tokens isFirst (a # as) =
     (if isFirst then [] else [TComma]) @ record_tokens a @ items_tokens False as"

section \<open>An example module\<close>

text \<open>
  Three functions of a C++ translation unit under \<^verbatim>\<open>/p\<close>; a type is given by its
  allocation size, so the data layout is \<open>of_nat\<close>. The third is a literal operator, whose
  Itanium name \<^verbatim>\<open>_Zli3_kmy\<close> LLVM demangles to \<^verbatim>\<open>operator"" _km(unsigned long long)\<close>;
  the two other names are not mangled and come back as they are.
\<close>

definition example_main :: "nat Function" where
  "example_main = \<lparr>addr = 1, name = ''main'', blocks = [[LoadInst 4, StoreInst 8 8]],
     subprogram = Some (Some \<lparr>directory = ''/p/src'', filename = ''a.cpp''\<rparr>),
     isDeclaration = False\<rparr>"

definition example_helper :: "nat Function" where
  "example_helper = \<lparr>addr = 2, name = ''helper'', blocks = [[LoadInst 4], [OtherInst]],
     subprogram = Some (Some \<lparr>directory = ''/p/src'', filename = ''a.cpp''\<rparr>),
     isDeclaration = False\<rparr>"

definition example_literal :: "nat Function" where
  "example_literal = \<lparr>addr = 3, name = ''_Zli3_kmy'', blocks = [[StoreInst 8 8]],
     subprogram = Some (Some \<lparr>directory = ''/p/src'', filename = ''a.cpp''\<rparr>),
     isDeclaration = False\<rparr>"

definition example_demangle :: "string \<Rightarrow> string" where
  "example_demangle n =
     (if n = ''_Zli3_kmy'' then ''operator'' @ [CHR 0x22, CHR 0x22] @ '' _km(unsigned long long)''
      else n)"

section \<open>Properties of analyzeFunction\<close>

lemma accountInstr_names:
  "mangledName (accountInstr dl r I) = mangledName r"
  "demangledName (accountInstr dl r I) = demangledName r"
  by (cases I; simp)+

lemma accountInstr_loads:
  "loads (accountInstr dl r I) = loads r + (if isLoad I then 1 else 0)"
  by (cases I) simp_all

lemma accountInstr_stores:
  "stores (accountInstr dl r I) = stores r + (if isStore I then 1 else 0)"
  by (cases I) simp_all

lemma accountInstr_bytes:
  "bytes (accountInstr dl r I) = bytes r + accessBytes dl I"
  by (cases I) simp_all

lemma accountBlock_loads:
  "loads (accountBlock dl r BB) = loads r + of_nat (length (filter isLoad BB))"
  unfolding accountBlock_def
  by (induction BB arbitrary: r) (simp_all add: accountInstr_loads)

lemma accountBlock_stores:
  "stores (accountBlock dl r BB) = stores r + of_nat (length (filter isStore BB))"
  unfolding accountBlock_def
  by (induction BB arbitrary: r) (simp_all add: accountInstr_stores)

lemma accountBlock_bytes:
  "bytes (accountBlock dl r BB) = bytes r + sum_list (map (accessBytes dl) BB)"
  unfolding accountBlock_def
  by (induction BB arbitrary: r) (simp_all add: accountInstr_bytes add.assoc)

lemma accountBlock_names:
  "mangledName (accountBlock dl r BB) = mangledName r"
  "demangledName (accountBlock dl r BB) = demangledName r"
  unfolding accountBlock_def
  by (induction BB arbitrary: r; simp add: accountInstr_names)+

lemma accountBody_loads:
  "loads (accountBody dl r BBs) = loads r + of_nat (length (filter isLoad (concat BBs)))"
  unfolding accountBody_def
  by (induction BBs arbitrary: r) (simp_all add: accountBlock_loads add.assoc)

lemma accountBody_stores:
  "stores (accountBody dl r BBs) = stores r + of_nat (length (filter isStore (concat BBs)))"
  unfolding accountBody_def
  by (induction BBs arbitrary: r) (simp_all add: accountBlock_stores add.assoc)

lemma accountBody_bytes:
  "bytes (accountBody dl r BBs) = bytes r + sum_list (map (accessBytes dl) (concat BBs))"
  unfolding accountBody_def
  by (induction BBs arbitrary: r) (simp_all add: accountBlock_bytes add.assoc)

lemma accountBody_names:
  "mangledName (accountBody dl r BBs) = mangledName r"
  "demangledName (accountBody dl r BBs) = demangledName r"
  unfolding accountBody_def
  by (induction BBs arbitrary: r; simp add: accountBlock_names)+

lemma analyzeFunction_miss:
  "m (addr F) = None \<Longrightarrow>
   analyzeFunction demangle dl F m =
     (accountBody dl \<lparr>mangledName = name F, demangledName = demangle (name F),
                       loads = 0, stores = 0, bytes = 0\<rparr> (blocks F),
      m(addr F \<mapsto>
        accountBody dl \<lparr>mangledName = name F, demangledName = demangle (name F),
                         loads = 0, stores = 0, bytes = 0\<rparr> (blocks F)))"
  by (simp add: analyzeFunction_def Let_def)

lemma analyzeFunction_hit:
  "m (addr F) = Some stored \<Longrightarrow>
   analyzeFunction demangle dl F m = (stored, m)"
  by (simp add: analyzeFunction_def)

lemma analyzeFunction_fresh:
  "m (addr F) = None \<Longrightarrow>
   analyzeFunction demangle dl F m = (accountant demangle dl F, m(addr F \<mapsto> accountant demangle dl F))"
  by (simp add: analyzeFunction_miss accountant_def)

lemma accountant_counts:
  "loads (accountant demangle dl F) = of_nat (length (filter isLoad (instrs F)))"
  "stores (accountant demangle dl F) = of_nat (length (filter isStore (instrs F)))"
  "bytes (accountant demangle dl F) = sum_list (map (accessBytes dl) (instrs F))"
  by (simp_all add: accountant_def accountBody_loads accountBody_stores accountBody_bytes instrs_def)

lemma sum_accessBytes_split:
  "sum_list (map (accessBytes dl) xs) =
     sum_list (map (accessBytes dl) (filter isLoad xs)) +
     sum_list (map (accessBytes dl) (filter isStore xs))"
proof (induction xs)
  case Nil
  show ?case by simp
next
  case (Cons I xs)
  then show ?case by (cases I) simp_all
qed

text \<open>
  Claim C1. On a fresh map, \<open>analyzeFunction\<close> counts one load per load instruction and
  one store per store instruction of the body, and \<open>bytes\<close> is the sum of the allocation
  sizes of the loaded values' types and of the stored values' types (the type of the value
  operand, not of the address operand). In particular a body whose only load reads a type
  of size 4 and whose only store writes a value of a type of size 8 gives loads = 1,
  stores = 1, bytes = 12, whatever the size of the store's address type.
\<close>

theorem analyzeFunction_counts:
  "(loads (fst (analyzeFunction demangle dl F Map.empty)) = of_nat (length (filter isLoad (instrs F)))
    \<and> stores (fst (analyzeFunction demangle dl F Map.empty)) = of_nat (length (filter isStore (instrs F)))
    \<and> bytes (fst (analyzeFunction demangle dl F Map.empty)) = sum_list (map (accessBytes dl) (instrs F)))
   \<and> (\<forall>r ty. accountInstr dl r (LoadInst ty) = r\<lparr>loads := loads r + 1, bytes := bytes r + dl ty\<rparr>)
   \<and> (\<forall>r valty ptrty. accountInstr dl r (StoreInst valty ptrty)
          = r\<lparr>stores := stores r + 1, bytes := bytes r + dl valty\<rparr>)
   \<and> (filter isLoad (instrs F) = [LoadInst ty] \<and> filter isStore (instrs F) = [StoreInst valty ptrty]
        \<and> dl ty = 4 \<and> dl valty = 8
      \<longrightarrow> loads (fst (analyzeFunction demangle dl F Map.empty)) = 1
        \<and> stores (fst (analyzeFunction demangle dl F Map.empty)) = 1
        \<and> bytes (fst (analyzeFunction demangle dl F Map.empty)) = 12)"
proof -
  let ?r = "fst (analyzeFunction demangle dl F Map.empty)"
  have l: "loads ?r = of_nat (length (filter isLoad (instrs F)))"
    by (simp add: analyzeFunction_miss accountBody_loads instrs_def)
  have s: "stores ?r = of_nat (length (filter isStore (instrs F)))"
    by (simp add: analyzeFunction_miss accountBody_stores instrs_def)
  have b: "bytes ?r = sum_list (map (accessBytes dl) (instrs F))"
    by (simp add: analyzeFunction_miss accountBody_bytes instrs_def)
  have ex: "loads ?r = 1 \<and> stores ?r = 1 \<and> bytes ?r = 12"
    if h: "filter isLoad (instrs F) = [LoadInst ty]"
          "filter isStore (instrs F) = [StoreInst valty ptrty]" "dl ty = 4" "dl valty = 8"
  proof -
    have "bytes ?r = dl ty + dl valty"
      unfolding b by (subst sum_accessBytes_split) (simp add: h(1,2))
    then show ?thesis using h by (simp add: l s)
  qed
  show ?thesis using l s b ex by simp
qed

theorem analyzeFunction_counts_witness:
  "filter isLoad (instrs \<lparr>addr = 1, name = ''f'', blocks = [[OtherInst, LoadInst (4::nat)],
        [StoreInst 8 16, CallInst None]], subprogram = None, isDeclaration = False\<rparr>) = [LoadInst 4]
   \<and> filter isStore (instrs \<lparr>addr = 1, name = ''f'', blocks = [[OtherInst, LoadInst (4::nat)],
        [StoreInst 8 16, CallInst None]], subprogram = None, isDeclaration = False\<rparr>) = [StoreInst 8 16]
   \<and> loads (fst (analyzeFunction id of_nat \<lparr>addr = 1, name = ''f'', blocks = [[OtherInst, LoadInst (4::nat)],
        [StoreInst 8 16, CallInst None]], subprogram = None, isDeclaration = False\<rparr> Map.empty)) = 1
   \<and> stores (fst (analyzeFunction id of_nat \<lparr>addr = 1, name = ''f'', blocks = [[OtherInst, LoadInst (4::nat)],
        [StoreInst 8 16, CallInst None]], subprogram = None, isDeclaration = False\<rparr> Map.empty)) = 1
   \<and> bytes (fst (analyzeFunction id of_nat \<lparr>addr = 1, name = ''f'', blocks = [[OtherInst, LoadInst (4::nat)],
        [StoreInst 8 16, CallInst None]], subprogram = None, isDeclaration = False\<rparr> Map.empty)) = 12"
  using analyzeFunction_counts [of id of_nat
      "\<lparr>addr = 1, name = ''f'', blocks = [[OtherInst, LoadInst (4::nat)],
        [StoreInst 8 16, CallInst None]], subprogram = None, isDeclaration = False\<rparr>" 4 8 16]
  by (simp add: instrs_def)

text \<open>
  Claim C9. The triple computed on a fresh map is a function of the instruction stream and
  the data layout alone: two functions with the same instructions, whatever their identity,
  name, debug metadata, block boundaries and demangler, get the same loads, stores and bytes
  from two fresh maps.
\<close>

theorem analyzeFunction_deterministic:
  "instrs F = instrs G \<longrightarrow>
     loads (fst (analyzeFunction demangle dl F Map.empty))
       = loads (fst (analyzeFunction demangle' dl G Map.empty))
     \<and> stores (fst (analyzeFunction demangle dl F Map.empty))
       = stores (fst (analyzeFunction demangle' dl G Map.empty))
     \<and> bytes (fst (analyzeFunction demangle dl F Map.empty))
       = bytes (fst (analyzeFunction demangle' dl G Map.empty))"
  by (simp add: analyzeFunction_fresh accountant_counts)

theorem analyzeFunction_deterministic_witness:
  "instrs example_main = instrs (example_main\<lparr>addr := 7, name := ''other'',
       blocks := [[LoadInst 4], [], [StoreInst 8 8]], subprogram := None\<rparr>)
   \<and> loads (fst (analyzeFunction id of_nat example_main Map.empty))
       = loads (fst (analyzeFunction example_demangle of_nat (example_main\<lparr>addr := 7, name := ''other'',
           blocks := [[LoadInst 4], [], [StoreInst 8 8]], subprogram := None\<rparr>) Map.empty))
   \<and> stores (fst (analyzeFunction id of_nat example_main Map.empty))
       = stores (fst (analyzeFunction example_demangle of_nat (example_main\<lparr>addr := 7, name := ''other'',
           blocks := [[LoadInst 4], [], [StoreInst 8 8]], subprogram := None\<rparr>) Map.empty))
   \<and> bytes (fst (analyzeFunction id of_nat example_main Map.empty))
       = bytes (fst (analyzeFunction example_demangle of_nat (example_main\<lparr>addr := 7, name := ''other'',
           blocks := [[LoadInst 4], [], [StoreInst 8 8]], subprogram := None\<rparr>) Map.empty))"
  using analyzeFunction_deterministic [of example_main "example_main\<lparr>addr := 7, name := ''other'',
       blocks := [[LoadInst 4], [], [StoreInst 8 8]], subprogram := None\<rparr>" id of_nat example_demangle]
  by (simp add: instrs_def example_main_def)

section \<open>Properties of isUserDefinedFunction\<close>

lemma prefix_path_append: "prefix path (path_append path component)"
  by (simp add: path_append_def)

text \<open>
  Claim C3. With \<^verbatim>\<open>SCOP_ROOT\<close> absent the classifier answers false for every function,
  whatever its debug metadata and source path, and writes the error line.
\<close>

theorem isUserDefinedFunction_no_root:
  "isUserDefinedFunction None F = (False, missingRootMsg)
   \<and> fst (isUserDefinedFunction None (F\<lparr>subprogram := dbg\<rparr>)) = False"
  by (simp add: isUserDefinedFunction_def)

text \<open>
  Claim C5. With the root set, a function is user-defined exactly when it has a subprogram
  with a file and the root is a prefix, character by character, of the directory joined
  with the file name. So a function whose source path is \<open>root/src/a.c\<close> is user-defined
  for that root, a file \<open>/root2/x.c\<close> matches the root \<open>/root\<close>, and a function with no
  debug metadata (no subprogram, or a subprogram with no file) is not user-defined for any
  root.
\<close>

theorem isUserDefinedFunction_prefix:
  "fst (isUserDefinedFunction (Some root) F) =
     (\<exists>file. subprogram F = Some (Some file)
        \<and> prefix root (path_append (directory file) (filename file)))
   \<and> snd (isUserDefinedFunction (Some root) F) = []
   \<and> path_append (root @ ''/src'') ''a.c'' = root @ ''/src/a.c''
   \<and> fst (isUserDefinedFunction (Some root)
        (F\<lparr>subprogram := Some (Some \<lparr>directory = root @ ''/src'', filename = ''a.c''\<rparr>)\<rparr>))
   \<and> path_append ''/root2'' ''x.c'' = ''/root2/x.c''
   \<and> fst (isUserDefinedFunction (Some ''/root'')
        (F\<lparr>subprogram := Some (Some \<lparr>directory = ''/root2'', filename = ''x.c''\<rparr>)\<rparr>))
   \<and> \<not> fst (isUserDefinedFunction (Some root) (F\<lparr>subprogram := None\<rparr>))
   \<and> \<not> fst (isUserDefinedFunction (Some root) (F\<lparr>subprogram := Some None\<rparr>))"
proof -
  have iff: "fst (isUserDefinedFunction (Some root) F) =
     (\<exists>file. subprogram F = Some (Some file)
        \<and> prefix root (path_append (directory file) (filename file)))"
    by (simp add: isUserDefinedFunction_def split: option.splits)
  have quiet: "snd (isUserDefinedFunction (Some root) F) = []"
    by (simp add: isUserDefinedFunction_def split: option.splits)
  have p1: "path_append (root @ ''/src'') ''a.c'' = root @ ''/src/a.c''"
    by (simp add: path_append_def)
  have p2: "path_append ''/root2'' ''x.c'' = ''/root2/x.c''"
    by (simp add: path_append_def)
  have e1: "fst (isUserDefinedFunction (Some root)
        (F\<lparr>subprogram := Some (Some \<lparr>directory = root @ ''/src'', filename = ''a.c''\<rparr>)\<rparr>))"
    by (simp add: isUserDefinedFunction_def p1)
  have e2: "fst (isUserDefinedFunction (Some ''/root'')
        (F\<lparr>subprogram := Some (Some \<lparr>directory = ''/root2'', filename = ''x.c''\<rparr>)\<rparr>))"
    by (simp add: isUserDefinedFunction_def p2)
  have n1: "\<not> fst (isUserDefinedFunction (Some root) (F\<lparr>subprogram := None\<rparr>))"
    by (simp add: isUserDefinedFunction_def)
  have n2: "\<not> fst (isUserDefinedFunction (Some root) (F\<lparr>subprogram := Some None\<rparr>))"
    by (simp add: isUserDefinedFunction_def)
  from iff quiet p1 p2 e1 e2 n1 n2 show ?thesis by blast
qed

section \<open>Properties of escapeCSV\<close>

lemma find_first_None: "find_first ch s = None \<longleftrightarrow> ch \<notin> set s"
  by (induction s) auto

lemma find_first_Some:
  "find_first ch s = Some i \<Longrightarrow> i < length s \<and> s ! i = ch \<and> ch \<notin> set (take i s)"
proof (induction s arbitrary: i)
  case Nil
  then show ?case by simp
next
  case (Cons c cs)
  show ?case
  proof (cases "c = ch")
    case True
    with Cons.prems show ?thesis by simp
  next
    case False
    with Cons.prems obtain j where j: "find_first ch cs = Some j" "i = Suc j" by auto
    from Cons.IH [OF j(1)] j(2) False show ?thesis by auto
  qed
qed

lemma find_char_0: "find_char s ch 0 = None \<longleftrightarrow> ch \<notin> set s"
  by (simp add: find_char_def find_first_None)

lemma double_quotes_append: "double_quotes (a @ b) = double_quotes a @ double_quotes b"
  by (simp add: double_quotes_def)

lemma double_quotes_id: "CHR 0x22 \<notin> set s \<Longrightarrow> double_quotes s = s"
  by (induction s) (auto simp: double_quotes_def)

lemma double_quotes_Cons_quote: "double_quotes (CHR 0x22 # s) = CHR 0x22 # CHR 0x22 # double_quotes s"
  by (simp add: double_quotes_def)

lemma escape_loop_eq:
  "pos \<le> length escaped \<Longrightarrow>
   escape_loop escaped pos = take pos escaped @ double_quotes (drop pos escaped)"
proof (induction escaped pos rule: escape_loop.induct)
  case (1 escaped pos)
  show ?case
  proof (cases "find_char escaped (CHR 0x22) pos")
    case None
    then have "CHR 0x22 \<notin> set (drop pos escaped)"
      by (simp add: find_char_def find_first_None)
    then have "double_quotes (drop pos escaped) = drop pos escaped"
      by (rule double_quotes_id)
    with None show ?thesis by (subst escape_loop.simps) simp
  next
    case (Some p)
    then obtain i where i: "find_first (CHR 0x22) (drop pos escaped) = Some i" "p = pos + i"
      by (auto simp: find_char_def)
    from find_first_Some [OF i(1)]
    have b: "i < length (drop pos escaped)" "drop pos escaped ! i = CHR 0x22"
      "CHR 0x22 \<notin> set (take i (drop pos escaped))" by auto
    have p: "p < length escaped" using b(1) i(2) by simp
    let ?e = "replace_str escaped p 1 [CHR 0x22, CHR 0x22]"
    have len: "p + 2 \<le> length ?e" using p by (simp add: replace_str_def)
    have ih: "escape_loop ?e (p + 2) = take (p + 2) ?e @ double_quotes (drop (p + 2) ?e)"
      using "1.IH" [OF Some len] .
    have t: "take (p + 2) ?e = take p escaped @ [CHR 0x22, CHR 0x22]"
      using p by (simp add: replace_str_def)
    have d: "drop (p + 2) ?e = drop (p + 1) escaped"
      using p by (simp add: replace_str_def)
    have split: "drop pos escaped = take i (drop pos escaped) @ CHR 0x22 # drop (Suc i) (drop pos escaped)"
      using b(1,2) by (metis id_take_nth_drop)
    have tk: "take pos escaped @ take i (drop pos escaped) = take p escaped"
      unfolding i(2) by (simp add: take_add)
    have "take pos escaped @ double_quotes (drop pos escaped)
        = take pos escaped @ take i (drop pos escaped) @ [CHR 0x22, CHR 0x22]
            @ double_quotes (drop (Suc i) (drop pos escaped))"
      by (subst split) (simp add: double_quotes_append double_quotes_Cons_quote double_quotes_id [OF b(3)])
    also have "\<dots> = take p escaped @ [CHR 0x22, CHR 0x22] @ double_quotes (drop (p + 1) escaped)"
      using tk by (simp add: i(2) add.commute)
    finally have rhs: "take pos escaped @ double_quotes (drop pos escaped)
        = take p escaped @ [CHR 0x22, CHR 0x22] @ double_quotes (drop (p + 1) escaped)" .
    have step: "escape_loop escaped pos = escape_loop ?e (p + 2)"
      by (subst escape_loop.simps) (simp only: Some option.case)
    show ?thesis unfolding step ih t d rhs by simp
  qed
qed

lemma escapeCSV_eq:
  "escapeCSV cell =
     (if CHR '','' \<in> set cell \<or> CHR 0x22 \<in> set cell then quoted_cell cell else cell)"
  by (simp add: escapeCSV_def find_char_0 escape_loop_eq quoted_cell_def)

lemma dec_digits: "set (dec n) \<subseteq> set ''0123456789''"
proof (induction n rule: dec.induct)
  case (1 n)
  have nth: "''0123456789'' ! k \<in> set ''0123456789''" if "k < 10" for k
    using that by (intro nth_mem) simp
  show ?case
  proof (cases "n < 10")
    case True
    then show ?thesis using nth [of n] by (subst dec.simps) simp
  next
    case False
    then show ?thesis using "1.IH" nth [of "n mod 10"] by (subst dec.simps) simp
  qed
qed

lemma show_size_plain: "CHR '','' \<notin> set (show_size w) \<and> CHR 0x22 \<notin> set (show_size w)"
  using dec_digits [of "unat w"] by (auto simp: show_size_def)

text \<open>
  Claim C8. A cell that contains a comma or a double quote comes out of \<open>escapeCSV\<close>
  between two double quotes, with every double quote inside it written twice: \<open>foo,bar\<close>
  becomes \<open>"foo,bar"\<close>, and a quote between two texts is doubled inside the wrapping
  quotes. Both names of a row of the CSV file go through \<open>escapeCSV\<close>.
\<close>

theorem escapeCSV_quotes:
  "(CHR '','' \<in> set cell \<or> CHR 0x22 \<in> set cell \<longrightarrow>
      escapeCSV cell
        = [CHR 0x22] @ concat (map (\<lambda>c. if c = CHR 0x22 then [CHR 0x22, CHR 0x22] else [c]) cell)
          @ [CHR 0x22])
   \<and> escapeCSV ''foo,bar'' = [CHR 0x22] @ ''foo,bar'' @ [CHR 0x22]
   \<and> escapeCSV (a @ [CHR 0x22] @ b)
        = [CHR 0x22] @ double_quotes a @ [CHR 0x22, CHR 0x22] @ double_quotes b @ [CHR 0x22]
   \<and> csvRow analysis
        = escapeCSV (demangledName analysis) @ '','' @ escapeCSV (mangledName analysis) @ '',''
          @ show_size (loads analysis) @ '','' @ show_size (stores analysis) @ '',''
          @ show_size (bytes analysis) @ [CHR 0x0A]
   \<and> csvFile (writeToCSV analysis s)
        = (if csvInitialized s then csvFile s else csvHeader) @ csvRow analysis"
proof -
  have g: "escapeCSV cell
        = [CHR 0x22] @ concat (map (\<lambda>c. if c = CHR 0x22 then [CHR 0x22, CHR 0x22] else [c]) cell)
          @ [CHR 0x22]" if "CHR '','' \<in> set cell \<or> CHR 0x22 \<in> set cell"
    using that by (simp add: escapeCSV_eq quoted_cell_def double_quotes_def)
  have e1: "escapeCSV ''foo,bar'' = [CHR 0x22] @ ''foo,bar'' @ [CHR 0x22]"
    by (simp add: escapeCSV_eq quoted_cell_def double_quotes_def)
  have e2: "escapeCSV (a @ [CHR 0x22] @ b)
        = [CHR 0x22] @ double_quotes a @ [CHR 0x22, CHR 0x22] @ double_quotes b @ [CHR 0x22]"
    by (simp add: escapeCSV_eq quoted_cell_def double_quotes_append double_quotes_Cons_quote)
  have r: "csvRow analysis
        = escapeCSV (demangledName analysis) @ '','' @ escapeCSV (mangledName analysis) @ '',''
          @ show_size (loads analysis) @ '','' @ show_size (stores analysis) @ '',''
          @ show_size (bytes analysis) @ [CHR 0x0A]"
    by (simp add: csvRow_def)
  have w: "csvFile (writeToCSV analysis s)
        = (if csvInitialized s then csvFile s else csvHeader) @ csvRow analysis"
    by (simp add: writeToCSV_def)
  from g e1 e2 r w show ?thesis by blast
qed

theorem escapeCSV_quotes_witness:
  "CHR 0x22 \<in> set (''a,'' @ [CHR 0x22])
   \<and> escapeCSV (''a,'' @ [CHR 0x22]) = [CHR 0x22] @ ''a,'' @ [CHR 0x22, CHR 0x22] @ [CHR 0x22]"
  using escapeCSV_quotes [of "''a,'' @ [CHR 0x22]"] by simp

text \<open>
  Claim C10. \<open>escapeCSV\<close> returns a cell with neither a comma nor a double quote as it is.
  The decimal text of a count is such a cell (and the counts are written without going
  through \<open>escapeCSV\<close> at all), so a row whose two names are such cells is the names and the
  three counts as they are, with commas between them and no quotes.
\<close>

theorem escapeCSV_identity:
  "(CHR '','' \<notin> set cell \<and> CHR 0x22 \<notin> set cell \<longrightarrow> escapeCSV cell = cell)
   \<and> escapeCSV (show_size w) = show_size w
   \<and> (CHR '','' \<notin> set (demangledName analysis) \<and> CHR 0x22 \<notin> set (demangledName analysis)
        \<and> CHR '','' \<notin> set (mangledName analysis) \<and> CHR 0x22 \<notin> set (mangledName analysis)
      \<longrightarrow> csvRow analysis
            = demangledName analysis @ '','' @ mangledName analysis @ '',''
              @ show_size (loads analysis) @ '','' @ show_size (stores analysis) @ '',''
              @ show_size (bytes analysis) @ [CHR 0x0A])"
proof -
  have g: "escapeCSV c = c" if "CHR '','' \<notin> set c \<and> CHR 0x22 \<notin> set c" for c
    using that by (simp add: escapeCSV_eq)
  have n: "escapeCSV (show_size w) = show_size w"
    by (rule g) (rule show_size_plain)
  have r: "csvRow analysis
            = demangledName analysis @ '','' @ mangledName analysis @ '',''
              @ show_size (loads analysis) @ '','' @ show_size (stores analysis) @ '',''
              @ show_size (bytes analysis) @ [CHR 0x0A]"
    if "CHR '','' \<notin> set (demangledName analysis) \<and> CHR 0x22 \<notin> set (demangledName analysis)
        \<and> CHR '','' \<notin> set (mangledName analysis) \<and> CHR 0x22 \<notin> set (mangledName analysis)"
    using that by (simp add: csvRow_def g)
  from g [of cell] n r show ?thesis by blast
qed

theorem escapeCSV_identity_witness:
  "CHR '','' \<notin> set ''main'' \<and> CHR 0x22 \<notin> set ''main'' \<and> escapeCSV ''main'' = ''main''
   \<and> csvRow \<lparr>mangledName = ''main'', demangledName = ''main'', loads = 1, stores = 1, bytes = 12\<rparr>
       = ''main,main,1,1,12'' @ [CHR 0x0A]"
  using escapeCSV_identity [of "''main''" 0
      "\<lparr>mangledName = ''main'', demangledName = ''main'', loads = 1, stores = 1, bytes = 12\<rparr>"]
  by (simp add: show_size_def dec.simps)

section \<open>Properties of run\<close>

lemma run_body_skip:
  "\<not> passes root F \<Longrightarrow>
   run_body root demangle dl s F = s\<lparr>errs := errs s @ snd (isUserDefinedFunction root F)\<rparr>"
  by (cases "isUserDefinedFunction root F") (auto simp: run_body_def passes_def Let_def)

lemma run_body_analyse:
  "passes root F \<Longrightarrow>
   run_body root demangle dl s F =
     s\<lparr>csvInitialized := True,
       csvFile := (if csvInitialized s then csvFile s else csvHeader)
                  @ csvRow (accountant demangle dl F),
       jsonFile := jsonFile s @ (if isFirstFunction s then [] else '','' @ [CHR 0x0A])
                   @ jsonRecord (accountant demangle dl F),
       errs := errs s @ snd (isUserDefinedFunction root F)
               @ printFunctionAnalysis (accountant demangle dl F),
       visitedFunctions := {},
       isFirstFunction := False,
       analysisMap := [addr F \<mapsto> accountant demangle dl F]\<rparr>"
  by (cases "isUserDefinedFunction root F")
    (simp add: run_body_def passes_def analyzeFunction_fresh writeToCSV_def writeToJSON_def
      Let_def)

lemma analysed_Cons:
  "analysed root (F # M) =
     (if passes root F then F # analysed root M else analysed root M)"
  by (simp add: analysed_def)

lemma analysed_Nil: "analysed root [] = []"
  by (simp add: analysed_def)

lemma loop_csvInitialized:
  "csvInitialized (foldl (run_body root demangle dl) s M)
     = (csvInitialized s \<or> analysed root M \<noteq> [])"
proof (induction M arbitrary: s)
  case Nil
  show ?case by (simp add: analysed_Nil)
next
  case (Cons F M)
  show ?case
  proof (cases "passes root F")
    case True
    then show ?thesis by (simp add: Cons.IH run_body_analyse analysed_Cons)
  next
    case False
    then show ?thesis by (simp add: Cons.IH run_body_skip analysed_Cons)
  qed
qed

lemma loop_csvFile:
  "csvFile (foldl (run_body root demangle dl) s M)
     = (if analysed root M = [] then csvFile s
        else (if csvInitialized s then csvFile s else csvHeader)
             @ concat (map (\<lambda>F. csvRow (accountant demangle dl F)) (analysed root M)))"
proof (induction M arbitrary: s)
  case Nil
  show ?case by (simp add: analysed_Nil)
next
  case (Cons F M)
  show ?case
  proof (cases "passes root F")
    case True
    then show ?thesis by (simp add: Cons.IH run_body_analyse analysed_Cons)
  next
    case False
    then show ?thesis by (simp add: Cons.IH run_body_skip analysed_Cons)
  qed
qed

lemma loop_jsonFile:
  "jsonFile (foldl (run_body root demangle dl) s M)
     = jsonFile s @ json_items (isFirstFunction s)
         (map (\<lambda>F. jsonRecord (accountant demangle dl F)) (analysed root M))"
proof (induction M arbitrary: s)
  case Nil
  show ?case by (simp add: analysed_Nil)
next
  case (Cons F M)
  show ?case
  proof (cases "passes root F")
    case True
    then show ?thesis by (simp add: Cons.IH run_body_analyse analysed_Cons)
  next
    case False
    then have "isFirstFunction (run_body root demangle dl s F) = isFirstFunction s"
      "jsonFile (run_body root demangle dl s F) = jsonFile s"
      by (simp_all add: run_body_skip)
    with False show ?thesis by (simp add: Cons.IH analysed_Cons)
  qed
qed

lemma loop_errs_no_root:
  "errs (foldl (run_body None demangle dl) s M)
     = errs s @ concat (replicate (length M) missingRootMsg)"
proof (induction M arbitrary: s)
  case Nil
  show ?case by simp
next
  case (Cons F M)
  have "run_body None demangle dl s F = s\<lparr>errs := errs s @ missingRootMsg\<rparr>"
    by (simp add: run_body_skip passes_def isUserDefinedFunction_def)
  then show ?case by (simp add: Cons.IH)
qed

lemma loop_analysisMap:
  "analysisMap (foldl (run_body root demangle dl) s M)
     = (if analysed root M = [] then analysisMap s
        else [addr (last (analysed root M)) \<mapsto> accountant demangle dl (last (analysed root M))])"
proof (induction M arbitrary: s)
  case Nil
  show ?case by (simp add: analysed_Nil)
next
  case (Cons F M)
  show ?case
  proof (cases "passes root F")
    case True
    then show ?thesis by (simp add: Cons.IH run_body_analyse analysed_Cons)
  next
    case False
    then show ?thesis by (simp add: Cons.IH run_body_skip analysed_Cons)
  qed
qed

lemma run_csvFile:
  "csvFile (run root demangle dl M s)
     = (if analysed root M = [] then csvFile s
        else (if csvInitialized s then csvFile s else csvHeader)
             @ concat (map (\<lambda>F. csvRow (accountant demangle dl F)) (analysed root M)))"
  by (simp add: run_def Let_def loop_csvFile)

lemma run_csvInitialized:
  "csvInitialized (run root demangle dl M s) = (csvInitialized s \<or> analysed root M \<noteq> [])"
  by (simp add: run_def Let_def loop_csvInitialized)

lemma run_jsonFile:
  "jsonFile (run root demangle dl M s)
     = ''['' @ [CHR 0x0A]
       @ json_items True (map (\<lambda>F. jsonRecord (accountant demangle dl F)) (analysed root M))
       @ [CHR 0x0A] @ '']''"
  by (simp add: run_def Let_def loop_jsonFile)

lemma run_errs_no_root:
  "errs (run None demangle dl M s) = errs s @ concat (replicate (length M) missingRootMsg)"
  by (simp add: run_def Let_def loop_errs_no_root)

lemma run_analysisMap:
  "analysisMap (run root demangle dl M s)
     = (if analysed root M = [] then analysisMap s
        else [addr (last (analysed root M)) \<mapsto> accountant demangle dl (last (analysed root M))])"
  by (simp add: run_def Let_def loop_analysisMap)

lemma passes_examples:
  "passes (Some ''/p'') example_main" "passes (Some ''/p'') example_helper"
  "passes (Some ''/p'') example_literal"
  by (simp_all add: passes_def isUserDefinedFunction_def path_append_def
      example_main_def example_helper_def example_literal_def)

lemma passes_no_root: "\<not> passes None F"
  by (simp add: passes_def isUserDefinedFunction_def)

lemma analysed_no_root: "analysed None M = []"
  by (simp add: analysed_def passes_no_root)

text \<open>
  Claim C2, as the code has it. Given one map, the first request for a function the map
  does not hold is answered by the Instruction Accountant and stored, and a second request
  on the resulting map returns the same result and leaves the map as it is; a request for an
  identity the map holds is answered with the stored entry, whatever the function's body.
  But the map is not scoped to the run: \<open>run\<close> declares it inside the loop body, so every
  function that passes the filter gets an empty map of its own, whatever an earlier
  iteration stored makes no difference to what its iteration does, and after a run the map
  holds the entry of the last analysed function only.
\<close>

theorem analysisMap_scope:
  "(m (addr F) = None \<longrightarrow>
      analyzeFunction demangle dl F m
        = (accountant demangle dl F, m(addr F \<mapsto> accountant demangle dl F))
      \<and> analyzeFunction demangle dl F (snd (analyzeFunction demangle dl F m))
        = (accountant demangle dl F, snd (analyzeFunction demangle dl F m)))
   \<and> (m' (addr G) = Some stored \<longrightarrow> analyzeFunction demangle dl G m' = (stored, m'))
   \<and> (passes root H \<longrightarrow>
        analysisMap (run_body root demangle dl s H) = [addr H \<mapsto> accountant demangle dl H]
        \<and> run_body root demangle dl (s\<lparr>analysisMap := earlier\<rparr>) H = run_body root demangle dl s H)
   \<and> analysisMap (run root demangle dl M s)
        = (if analysed root M = [] then analysisMap s
           else [addr (last (analysed root M)) \<mapsto> accountant demangle dl (last (analysed root M))])"
proof -
  have twice: "analyzeFunction demangle dl F m
        = (accountant demangle dl F, m(addr F \<mapsto> accountant demangle dl F))
      \<and> analyzeFunction demangle dl F (snd (analyzeFunction demangle dl F m))
        = (accountant demangle dl F, snd (analyzeFunction demangle dl F m))"
    if "m (addr F) = None"
    using that by (simp add: analyzeFunction_fresh analyzeFunction_hit)
  have hit: "analyzeFunction demangle dl G m' = (stored, m')" if "m' (addr G) = Some stored"
    using that by (rule analyzeFunction_hit)
  have body: "analysisMap (run_body root demangle dl s H) = [addr H \<mapsto> accountant demangle dl H]
        \<and> run_body root demangle dl (s\<lparr>analysisMap := earlier\<rparr>) H = run_body root demangle dl s H"
    if "passes root H"
    using that by (simp add: run_body_analyse)
  have whole: "analysisMap (run root demangle dl M s)
        = (if analysed root M = [] then analysisMap s
           else [addr (last (analysed root M)) \<mapsto> accountant demangle dl (last (analysed root M))])"
    by (simp add: run_analysisMap)
  from twice hit body whole show ?thesis by blast
qed

theorem analysisMap_scope_witness:
  "Map.empty (addr example_main) = None
   \<and> analyzeFunction id of_nat example_main Map.empty
       = (accountant id of_nat example_main, [addr example_main \<mapsto> accountant id of_nat example_main])
   \<and> [addr example_main \<mapsto> accountant id of_nat example_helper] (addr example_main)
       = Some (accountant id of_nat example_helper)
   \<and> analyzeFunction id of_nat example_main [addr example_main \<mapsto> accountant id of_nat example_helper]
       = (accountant id of_nat example_helper,
          [addr example_main \<mapsto> accountant id of_nat example_helper])
   \<and> passes (Some ''/p'') example_helper
   \<and> analysisMap (run_body (Some ''/p'') id of_nat
         (fresh_process\<lparr>analysisMap := [addr example_main \<mapsto> accountant id of_nat example_main]\<rparr>)
         example_helper)
       = [addr example_helper \<mapsto> accountant id of_nat example_helper]"
  using analysisMap_scope [where m = Map.empty and F = example_main and demangle = id
      and dl = of_nat and m' = "[addr example_main \<mapsto> accountant id of_nat example_helper]"
      and G = example_main and stored = "accountant id of_nat example_helper"
      and root = "Some ''/p''" and H = example_helper and M = "[]" and earlier = Map.empty
      and s = "fresh_process\<lparr>analysisMap := [addr example_main \<mapsto> accountant id of_nat example_main]\<rparr>"]
  by (simp add: passes_examples)

theorem analysisMap_scope_counterexample:
  "analysed (Some ''/p'') [example_main, example_helper] = [example_main, example_helper]
   \<and> analysisMap (run (Some ''/p'') id of_nat [example_main, example_helper] fresh_process)
        (addr example_main) = None
   \<and> analysisMap (run (Some ''/p'') id of_nat [example_main, example_helper] fresh_process)
        (addr example_helper) = Some (accountant id of_nat example_helper)"
proof -
  have a: "analysed (Some ''/p'') [example_main, example_helper] = [example_main, example_helper]"
    by (simp add: analysed_def passes_examples)
  have "addr example_main \<noteq> addr example_helper"
    by (simp add: example_main_def example_helper_def)
  then show ?thesis
    by (simp add: a run_analysisMap)
qed

text \<open>
  Claim C6, as the code has it. The classifier is called for every function of the module,
  and with \<^verbatim>\<open>SCOP_ROOT\<close> absent each call writes the error line: a run over a module of
  \<open>N\<close> functions, declarations included, writes it \<open>N\<close> times, analyses nothing and writes
  nothing else to the diagnostic stream.
\<close>

theorem run_no_root_diagnostics:
  "errs (run None demangle dl M s) = errs s @ concat (replicate (length M) missingRootMsg)
   \<and> analysed None M = []"
  by (simp add: run_errs_no_root analysed_no_root)

theorem run_no_root_diagnostics_witness:
  "errs (run None id of_nat [example_main, example_helper, example_literal] fresh_process)
     = missingRootMsg @ missingRootMsg @ missingRootMsg"
  using run_no_root_diagnostics [of id of_nat "[example_main, example_helper, example_literal]" fresh_process]
  by (simp add: fresh_process_def)

theorem run_no_root_diagnostics_counterexample:
  "errs (run None id of_nat [example_main, example_helper] fresh_process)
     = missingRootMsg @ missingRootMsg
   \<and> errs (run None id of_nat [example_main, example_helper] fresh_process) \<noteq> missingRootMsg"
  by (simp add: run_errs_no_root fresh_process_def missingRootMsg_def)

lemma passes_declaration: "\<not> passes root (F\<lparr>isDeclaration := True\<rparr>)"
  by (simp add: passes_def)

lemma csvRow_example_main:
  "csvRow (accountant id of_nat example_main) = ''main,main,1,1,12'' @ [CHR 0x0A]"
  by (simp add: csvRow_def accountant_def accountBody_def accountBlock_def example_main_def
      escapeCSV_eq show_size_def dec.simps)

text \<open>
  Claim C7. \<open>run\<close> reopens the JSON file, which empties it, at every run; the CSV file is
  opened by \<open>writeToCSV\<close> behind the static \<open>csvInitialized\<close>, which nothing resets, so
  it is emptied and given its header once per process and not by every run. With the pass
  twice in one pipeline over a module whose one function is \<open>main\<close>, the text written to
  the CSV stream is the header and the row of \<open>main\<close> twice, not the header and one row
  that the second run alone would write, while the JSON file is that of the second run
  alone. And a run that analyses nothing, here over a module with only a declaration, never
  opens the CSV file: the content an earlier process left stays, while the JSON file is
  rewritten to the empty array.
\<close>

theorem run_csv_not_rewritten:
  "csvFile (run (Some ''/p'') id of_nat [example_main] fresh_process)
     = csvHeader @ ''main,main,1,1,12'' @ [CHR 0x0A]
   \<and> csvFile (run (Some ''/p'') id of_nat [example_main]
        (run (Some ''/p'') id of_nat [example_main] fresh_process))
     = csvHeader @ ''main,main,1,1,12'' @ [CHR 0x0A] @ ''main,main,1,1,12'' @ [CHR 0x0A]
   \<and> csvFile (run (Some ''/p'') id of_nat [example_main]
        (run (Some ''/p'') id of_nat [example_main] fresh_process))
     \<noteq> csvFile (run (Some ''/p'') id of_nat [example_main] fresh_process)
   \<and> jsonFile (run (Some ''/p'') id of_nat [example_main]
        (run (Some ''/p'') id of_nat [example_main] fresh_process))
     = jsonFile (run (Some ''/p'') id of_nat [example_main] fresh_process)
   \<and> csvFile (run (Some ''/p'') id of_nat [example_main\<lparr>isDeclaration := True\<rparr>]
        (fresh_process\<lparr>csvFile := ''stale'', jsonFile := ''stale''\<rparr>))
     = ''stale''
   \<and> jsonFile (run (Some ''/p'') id of_nat [example_main\<lparr>isDeclaration := True\<rparr>]
        (fresh_process\<lparr>csvFile := ''stale'', jsonFile := ''stale''\<rparr>))
     = ''['' @ [CHR 0x0A, CHR 0x0A] @ '']''"
proof -
  have a: "analysed (Some ''/p'') [example_main] = [example_main]"
    by (simp add: analysed_def passes_examples)
  have n: "analysed (Some ''/p'') [example_main\<lparr>isDeclaration := True\<rparr>] = []"
    by (simp add: analysed_def passes_declaration)
  have once: "csvFile (run (Some ''/p'') id of_nat [example_main] fresh_process)
     = csvHeader @ ''main,main,1,1,12'' @ [CHR 0x0A]"
    by (simp add: run_csvFile a csvRow_example_main fresh_process_def)
  have twice: "csvFile (run (Some ''/p'') id of_nat [example_main]
        (run (Some ''/p'') id of_nat [example_main] fresh_process))
     = csvHeader @ ''main,main,1,1,12'' @ [CHR 0x0A] @ ''main,main,1,1,12'' @ [CHR 0x0A]"
    by (simp add: run_csvFile run_csvInitialized a csvRow_example_main fresh_process_def)
  have differ: "csvFile (run (Some ''/p'') id of_nat [example_main]
        (run (Some ''/p'') id of_nat [example_main] fresh_process))
     \<noteq> csvFile (run (Some ''/p'') id of_nat [example_main] fresh_process)"
    unfolding once twice by simp
  have json: "jsonFile (run (Some ''/p'') id of_nat [example_main]
        (run (Some ''/p'') id of_nat [example_main] fresh_process))
     = jsonFile (run (Some ''/p'') id of_nat [example_main] fresh_process)"
    by (simp add: run_jsonFile)
  have stale: "csvFile (run (Some ''/p'') id of_nat [example_main\<lparr>isDeclaration := True\<rparr>]
        (fresh_process\<lparr>csvFile := ''stale'', jsonFile := ''stale''\<rparr>))
     = ''stale''"
    by (simp add: run_csvFile n)
  have empty: "jsonFile (run (Some ''/p'') id of_nat [example_main\<lparr>isDeclaration := True\<rparr>]
        (fresh_process\<lparr>csvFile := ''stale'', jsonFile := ''stale''\<rparr>))
     = ''['' @ [CHR 0x0A, CHR 0x0A] @ '']''"
    by (simp add: run_jsonFile n)
  from once twice differ json stale empty show ?thesis by (intro conjI)
qed

section \<open>The structured artifact\<close>

lemma emit_simps [simp]:
  "emit [] x = x"
  "emit ts None = None"
  "emit ts (Some r) = Some (ts @ r)"
  "emit xs (emit ys x) = emit (xs @ ys) x"
  by (cases x; simp add: emit_def)+

lemma lex_string:
  "json_safe s \<Longrightarrow>
   json_lex (LString acc) (s @ CHR 0x22 # rest) = emit ([TString (acc @ s)]) (json_lex LTop rest)"
proof (induction s arbitrary: acc)
  case Nil
  show ?case by (cases "json_lex LTop rest") simp_all
next
  case (Cons c s)
  from Cons.prems have c: "c \<noteq> CHR 0x22" "c \<noteq> CHR 0x5C" "\<not> is_control c" and s: "json_safe s"
    by (simp_all add: json_safe_def)
  show ?case using c Cons.IH [OF s, of "acc @ [c]"] by simp
qed

lemma is_digit_top_step: "is_digit d \<Longrightarrow> top_step d = Some ([], LNumber [d])"
  by (auto simp: is_digit_def top_step_def is_space_def)

lemma lex_digits:
  "list_all is_digit ds \<Longrightarrow> \<not> is_digit c \<Longrightarrow> top_step c = Some (ts, LTop) \<Longrightarrow>
   json_lex (LNumber acc) (ds @ c # rest) = emit ((TNumber (acc @ ds) # ts)) (json_lex LTop rest)"
proof (induction ds arbitrary: acc)
  case Nil
  then show ?case by (cases "json_lex LTop rest") simp_all
next
  case (Cons d ds)
  then show ?case using Cons.IH [of "acc @ [d]"] by simp
qed

lemma dec_not_Nil: "dec n \<noteq> []"
  by (subst dec.simps) simp

lemma digit_nth: "k < 10 \<Longrightarrow> is_digit (''0123456789'' ! k)"
  unfolding is_digit_def by (intro nth_mem) simp

lemma dec_all_digits: "list_all is_digit (dec n)"
proof (induction n rule: dec.induct)
  case (1 n)
  show ?case
  proof (cases "n < 10")
    case True
    then show ?thesis using digit_nth [of n] by (subst dec.simps) simp
  next
    case False
    then show ?thesis using "1.IH" digit_nth [of "n mod 10"] by (subst dec.simps) simp
  qed
qed

lemma digit_zero: "k < 10 \<Longrightarrow> ''0123456789'' ! k = CHR ''0'' \<Longrightarrow> k = 0"
proof -
  assume "k < 10"
  then have "k \<in> {0, 1, 2, 3, 4, 5, 6, 7, 8, 9}" by auto
  moreover assume "''0123456789'' ! k = CHR ''0''"
  ultimately show ?thesis by auto
qed

lemma dec_leading: "hd (dec n) = CHR ''0'' \<Longrightarrow> n = 0"
proof (induction n rule: dec.induct)
  case (1 n)
  show ?case
  proof (cases "n < 10")
    case True
    with "1.prems" have "''0123456789'' ! n = CHR ''0''" by (subst (asm) dec.simps) simp
    with True show ?thesis by (rule digit_zero)
  next
    case False
    with "1.prems" have "hd (dec (n div 10)) = CHR ''0''"
      by (subst (asm) dec.simps) (simp add: dec_not_Nil)
    with "1.IH" False have "n div 10 = 0" by simp
    with False show ?thesis by simp
  qed
qed

lemma dec_zero: "dec 0 = ''0''"
  by (subst dec.simps) simp

lemma number_ok_show_size: "number_ok (show_size w)"
proof (cases "unat w = 0")
  case True
  then show ?thesis by (simp add: number_ok_def show_size_def dec_zero)
next
  case False
  then have "hd (dec (unat w)) \<noteq> CHR ''0''" using dec_leading [of "unat w"] by auto
  then show ?thesis by (simp add: number_ok_def show_size_def dec_not_Nil)
qed

lemma lex_number:
  assumes "\<not> is_digit c" "top_step c = Some (ts, LTop)"
  shows "json_lex LTop (show_size w @ c # rest)
     = emit ((TNumber (show_size w) # ts)) (json_lex LTop rest)"
proof -
  obtain d ds where d: "dec (unat w) = d # ds" using dec_not_Nil by (cases "dec (unat w)") auto
  with dec_all_digits [of "unat w"] have dg: "is_digit d" "list_all is_digit ds" by simp_all
  show ?thesis
    using lex_digits [OF dg(2) assms, of "[d]" rest]
    by (cases "json_lex LTop rest") (simp_all add: show_size_def d is_digit_top_step [OF dg(1)])
qed

lemma lex_number_comma:
  "json_lex LTop (show_size w @ CHR '','' # rest)
     = emit ([TNumber (show_size w), TComma]) (json_lex LTop rest)"
  using lex_number [of "CHR '',''" "[TComma]" w rest]
  by (simp add: is_digit_def top_step_def is_space_def)

lemma lex_number_newline:
  "json_lex LTop (show_size w @ CHR 0x0A # rest)
     = emit ([TNumber (show_size w)]) (json_lex LTop rest)"
  using lex_number [of "CHR 0x0A" "[]" w rest]
  by (simp add: is_digit_def top_step_def is_space_def)

lemma lex_string_start:
  "json_safe s \<Longrightarrow>
   json_lex (LString []) (s @ CHR 0x22 # rest) = emit ([TString s]) (json_lex LTop rest)"
  using lex_string [of s "[]" rest] by simp

lemma lex_record:
  assumes "json_safe (demangledName a)" "json_safe (mangledName a)"
  shows "json_lex LTop (jsonRecord a @ rest) = emit ((record_tokens a)) (json_lex LTop rest)"
  by (cases "json_lex LTop rest")
    (simp_all add: jsonRecord_def record_tokens_def top_step_def is_space_def is_control_def
      lex_string_start assms lex_number_comma lex_number_newline)

lemma lex_items:
  "list_all (\<lambda>a. json_safe (demangledName a) \<and> json_safe (mangledName a)) as \<Longrightarrow>
   json_lex LTop (json_items isFirst (map jsonRecord as) @ rest)
     = emit ((items_tokens isFirst as)) (json_lex LTop rest)"
proof (induction as arbitrary: isFirst)
  case Nil
  show ?case by (cases "json_lex LTop rest") simp_all
next
  case (Cons a as)
  then have safe: "json_safe (demangledName a)" "json_safe (mangledName a)"
    and rest: "list_all (\<lambda>a. json_safe (demangledName a) \<and> json_safe (mangledName a)) as"
    by simp_all
  have sep: "json_lex LTop ('','' @ [CHR 0x0A] @ x) = emit ([TComma]) (json_lex LTop x)" for x
    by (cases "json_lex LTop x") (simp_all add: top_step_def is_space_def)
  have recd: "json_lex LTop (jsonRecord a @ json_items False (map jsonRecord as) @ rest)
      = emit ((record_tokens a @ items_tokens False as)) (json_lex LTop rest)"
    by (simp add: lex_record [OF safe] Cons.IH [OF rest])
  show ?case
  proof (cases isFirst)
    case True
    then show ?thesis using recd by simp
  next
    case False
    have "json_lex LTop ('','' @ [CHR 0x0A] @ jsonRecord a @ json_items False (map jsonRecord as) @ rest)
        = emit (([TComma] @ record_tokens a @ items_tokens False as)) (json_lex LTop rest)"
      by (simp only: sep recd emit_simps)
    with False show ?thesis by simp
  qed
qed

lemma parse_record:
  "st = PArrayOpen \<or> st = PArrayComma \<Longrightarrow>
   parse_tokens (st, ms, rs) (record_tokens a @ rest)
     = parse_tokens (PObjectClose, [], rs @ [record_fields a]) rest"
  by (auto simp: record_tokens_def record_fields_def number_ok_show_size)

lemma parse_items_rest:
  "parse_tokens (PObjectClose, [], rs) (items_tokens False as @ [TRBracket])
     = Some (PDone, [], rs @ map record_fields as)"
  by (induction as arbitrary: rs) (simp_all add: parse_record)

lemma parse_items:
  "parse_tokens (PArrayOpen, [], rs) (items_tokens True as @ [TRBracket])
     = Some (PDone, [], rs @ map record_fields as)"
  by (cases as) (simp_all add: parse_record parse_items_rest)

lemma json_records_items:
  assumes "list_all (\<lambda>a. json_safe (demangledName a) \<and> json_safe (mangledName a)) as"
  shows "json_records (''['' @ [CHR 0x0A] @ json_items True (map jsonRecord as) @ [CHR 0x0A] @ '']'')
     = Some (map record_fields as)"
proof -
  have "json_lex LTop (''['' @ [CHR 0x0A] @ json_items True (map jsonRecord as) @ [CHR 0x0A] @ '']'')
      = Some (TLBracket # items_tokens True as @ [TRBracket])"
    using lex_items [OF assms, of True "[CHR 0x0A] @ '']''"]
    by (simp add: top_step_def is_space_def)
  then show ?thesis
    by (simp add: json_records_def parse_items)
qed

lemma run_json_records:
  assumes "list_all (\<lambda>F. json_safe (name F) \<and> json_safe (demangle (name F))) (analysed root M)"
  shows "json_records (jsonFile (run root demangle dl M s))
     = Some (map (\<lambda>F. record_fields (accountant demangle dl F)) (analysed root M))"
proof -
  have names: "mangledName (accountant demangle dl F) = name F"
    "demangledName (accountant demangle dl F) = demangle (name F)" for F :: "'a Function"
    by (simp_all add: accountant_def accountBody_names)
  from assms
  have "list_all (\<lambda>a. json_safe (demangledName a) \<and> json_safe (mangledName a))
          (map (accountant demangle dl) (analysed root M))"
    by (simp add: list_all_iff names)
  from json_records_items [OF this] show ?thesis
    by (simp add: run_jsonFile comp_def)
qed

lemma record_fields_required: "set required_fields \<subseteq> fst ` set (record_fields a)"
  by (simp add: required_fields_def record_fields_def)

lemma analysed_examples:
  "analysed (Some ''/p'') [example_main, example_helper] = [example_main, example_helper]"
  "analysed (Some ''/p'') [example_literal] = [example_literal]"
  by (simp_all add: analysed_def passes_examples)

lemma json_literal_rejected:
  "json_records (''['' @ [CHR 0x0A] @ jsonRecord (accountant example_demangle of_nat example_literal)
      @ [CHR 0x0A] @ '']'') = None"
  by code_simp

text \<open>
  Claim C4. The file is the opening bracket, the records with a comma before every record
  but the first, and the closing bracket. \<open>writeToJSON\<close> writes both names between double
  quotes as they are, with no escaping, where \<open>writeToCSV\<close> escapes them. When the names
  of the analysed functions have no double quote, backslash or control character, the file
  reads back as one record per analysed function with the five fields and their values.
  A name with a double quote ends its string early: for the literal operator, whose
  demangled name is \<^verbatim>\<open>operator"" _km(unsigned long long)\<close>, the file is not a JSON
  array of records at all.
\<close>

theorem run_json_unescaped:
  "jsonFile (run root demangle dl M s)
     = ''['' @ [CHR 0x0A]
       @ json_items True (map (\<lambda>F. jsonRecord (accountant demangle dl F)) (analysed root M))
       @ [CHR 0x0A] @ '']''
   \<and> (list_all (\<lambda>F. json_safe (name F) \<and> json_safe (demangle (name F))) (analysed root M) \<longrightarrow>
        json_records (jsonFile (run root demangle dl M s))
          = Some (map (\<lambda>F. record_fields (accountant demangle dl F)) (analysed root M))
        \<and> well_formed_records (length (analysed root M)) (jsonFile (run root demangle dl M s)))
   \<and> demangledName (accountant example_demangle of_nat example_literal)
        = ''operator'' @ [CHR 0x22, CHR 0x22] @ '' _km(unsigned long long)''
   \<and> jsonFile (run (Some ''/p'') example_demangle of_nat [example_literal] fresh_process)
        = ''['' @ [CHR 0x0A] @ jsonRecord (accountant example_demangle of_nat example_literal)
          @ [CHR 0x0A] @ '']''
   \<and> json_records (jsonFile (run (Some ''/p'') example_demangle of_nat [example_literal] fresh_process))
        = None
   \<and> \<not> well_formed_records 1
        (jsonFile (run (Some ''/p'') example_demangle of_nat [example_literal] fresh_process))"
proof -
  have shape: "jsonFile (run root demangle dl M s)
     = ''['' @ [CHR 0x0A]
       @ json_items True (map (\<lambda>F. jsonRecord (accountant demangle dl F)) (analysed root M))
       @ [CHR 0x0A] @ '']''"
    by (simp add: run_jsonFile)
  have good: "json_records (jsonFile (run root demangle dl M s))
          = Some (map (\<lambda>F. record_fields (accountant demangle dl F)) (analysed root M))
        \<and> well_formed_records (length (analysed root M)) (jsonFile (run root demangle dl M s))"
    if safe: "list_all (\<lambda>F. json_safe (name F) \<and> json_safe (demangle (name F))) (analysed root M)"
  proof -
    have r: "json_records (jsonFile (run root demangle dl M s))
          = Some (map (\<lambda>F. record_fields (accountant demangle dl F)) (analysed root M))"
      using safe by (rule run_json_records)
    then show ?thesis
      by (simp add: well_formed_records_def list_all_iff record_fields_required)
  qed
  have nm: "demangledName (accountant example_demangle of_nat example_literal)
        = ''operator'' @ [CHR 0x22, CHR 0x22] @ '' _km(unsigned long long)''"
    by (simp add: accountant_def accountBody_names example_literal_def example_demangle_def)
  have lit: "jsonFile (run (Some ''/p'') example_demangle of_nat [example_literal] fresh_process)
        = ''['' @ [CHR 0x0A] @ jsonRecord (accountant example_demangle of_nat example_literal)
          @ [CHR 0x0A] @ '']''"
    by (simp add: run_jsonFile analysed_examples)
  have bad: "json_records (jsonFile (run (Some ''/p'') example_demangle of_nat [example_literal] fresh_process))
        = None"
    unfolding lit by (rule json_literal_rejected)
  have bad': "\<not> well_formed_records 1
        (jsonFile (run (Some ''/p'') example_demangle of_nat [example_literal] fresh_process))"
    by (simp add: well_formed_records_def bad)
  from shape good nm lit bad bad' show ?thesis by blast
qed

theorem run_json_unescaped_witness:
  "list_all (\<lambda>F. json_safe (name F) \<and> json_safe (example_demangle (name F)))
     (analysed (Some ''/p'') [example_main, example_helper])
   \<and> json_records (jsonFile (run (Some ''/p'') example_demangle of_nat
        [example_main, example_helper] fresh_process))
      = Some [[(''Function Name (Demangled)'', TString ''main''),
               (''Function Name (Mangled)'', TString ''main''),
               (''Loads'', TNumber ''1''), (''Stores'', TNumber ''1''), (''Bytes'', TNumber ''12'')],
              [(''Function Name (Demangled)'', TString ''helper''),
               (''Function Name (Mangled)'', TString ''helper''),
               (''Loads'', TNumber ''1''), (''Stores'', TNumber ''0''), (''Bytes'', TNumber ''4'')]]
   \<and> well_formed_records 2 (jsonFile (run (Some ''/p'') example_demangle of_nat
        [example_main, example_helper] fresh_process))"
proof -
  have safe: "list_all (\<lambda>F. json_safe (name F) \<and> json_safe (example_demangle (name F)))
     (analysed (Some ''/p'') [example_main, example_helper])"
    by (simp only: analysed_examples)
      (simp add: json_safe_def is_control_def example_demangle_def example_main_def
        example_helper_def)
  have v: "map (\<lambda>F. record_fields (accountant example_demangle of_nat F)) [example_main, example_helper]
      = [[(''Function Name (Demangled)'', TString ''main''),
               (''Function Name (Mangled)'', TString ''main''),
               (''Loads'', TNumber ''1''), (''Stores'', TNumber ''1''), (''Bytes'', TNumber ''12'')],
              [(''Function Name (Demangled)'', TString ''helper''),
               (''Function Name (Mangled)'', TString ''helper''),
               (''Loads'', TNumber ''1''), (''Stores'', TNumber ''0''), (''Bytes'', TNumber ''4'')]]"
    by (simp add: record_fields_def accountant_def accountBody_def accountBlock_def
        example_demangle_def example_main_def example_helper_def show_size_def dec.simps)
  let ?X = "jsonFile (run (Some ''/p'') example_demangle of_nat
        [example_main, example_helper] fresh_process)"
  have both: "json_records ?X
      = Some (map (\<lambda>F. record_fields (accountant example_demangle of_nat F))
          (analysed (Some ''/p'') [example_main, example_helper]))
    \<and> well_formed_records (length (analysed (Some ''/p'') [example_main, example_helper])) ?X"
    using run_json_unescaped [of "Some ''/p''" example_demangle of_nat
        "[example_main, example_helper]" fresh_process] safe
    by blast
  from both have a: "json_records ?X
      = Some [[(''Function Name (Demangled)'', TString ''main''),
               (''Function Name (Mangled)'', TString ''main''),
               (''Loads'', TNumber ''1''), (''Stores'', TNumber ''1''), (''Bytes'', TNumber ''12'')],
              [(''Function Name (Demangled)'', TString ''helper''),
               (''Function Name (Mangled)'', TString ''helper''),
               (''Loads'', TNumber ''1''), (''Stores'', TNumber ''0''), (''Bytes'', TNumber ''4'')]]"
    unfolding analysed_examples v by (rule conjunct1)
  have "length (analysed (Some ''/p'') [example_main, example_helper]) = 2"
    by (simp add: analysed_examples)
  with both have b: "well_formed_records 2 ?X"
    by (simp only:)
  from safe a b show ?thesis by (intro conjI)
qed

end
